theory Spec2Isabelle
  imports Complex_Main "HOL-Library.Multiset"
begin

section \<open>Python values shared by the three modules\<close>

text \<open>
  Exceptions are modelled by their class, as far as the handlers of the program tell
  classes apart. Every class below derives from Python's \<open>Exception\<close>; interpreter
  signals that only derive from \<open>BaseException\<close> (task cancellation, keyboard
  interrupt) are never raised by this program (nothing cancels a task) and are not modelled.
\<close>

datatype py_exception =
  TimeoutError | ConnectionRefusedError | ValueError | KeyError | TypeError | OtherException

text \<open>
  The values that the result dictionaries hold, and a dictionary with string keys.
\<close>

datatype py_val = PyInt int | PyStr string | PyNone

type_synonym result = "string \<rightharpoonup> py_val"

text \<open>
  Python's \<open>round(x)\<close> with one argument returns an \<open>int\<close> and rounds halves to the
  even neighbour. Clock readings are floats in the source; they are rationals here, so the
  rounding error of the float subtraction and multiplication is not modelled.
\<close>

definition py_round :: "rat \<Rightarrow> int" where
  "py_round x =
     (let f = \<lfloor>x\<rfloor>; d = x - of_int f
      in if d < 1 / 2 then f
         else if 1 / 2 < d then f + 1
         else if even f then f else f + 1)"

section \<open>scanner.py: the probe\<close>

text \<open>
  What the outside world does during the \<open>try\<close> body of one call of \<open>scan_port\<close>:
  the two clock readings, and for each of the two awaited operations either normal
  completion (\<open>None\<close>) or the exception it raises.
\<close>

record attempt =
  start_time :: rat
  open_connection :: "py_exception option"
  wait_closed :: "py_exception option"
  end_time :: rat

type_synonym outcome = "int \<times> string \<times> int option"

text \<open>The body of the \<open>try\<close>: the value of \<open>elapsed_ms\<close>, or the exception raised.\<close>

definition try_connect :: "attempt \<Rightarrow> py_exception + int" where
  "try_connect a =
     (case open_connection a of
        Some e \<Rightarrow> Inl e
      | None \<Rightarrow>
          (case wait_closed a of
             Some e \<Rightarrow> Inl e
           | None \<Rightarrow> Inr (py_round ((end_time a - start_time a) * 1000))))"

text \<open>
  \<open>scan_port\<close> with its three handlers in the order of the source. \<open>Inl e\<close> would be
  an exception that leaves the function.
\<close>

definition scan_port :: "attempt \<Rightarrow> string \<Rightarrow> int \<Rightarrow> rat \<Rightarrow> py_exception + outcome" where
  "scan_port a ip port timeout =
     (case try_connect a of
        Inr elapsed_ms \<Rightarrow> Inr (port, ''open'', Some elapsed_ms)
      | Inl e \<Rightarrow>
          if e = TimeoutError then Inr (port, ''timeout'', None)
          else if e = ConnectionRefusedError then Inr (port, ''closed'', None)
          else Inr (port, ''error'', None))"

section \<open>scanner.py: the scheduler\<close>

text \<open>
  One element of the list that \<open>asyncio.gather(..., return_exceptions=True)\<close> returns:
  the tuple a task returned, or the exception that ended the task.
\<close>

datatype gathered = Tuple outcome | Exc py_exception

text \<open>
  The world seen by one call of \<open>scan_ports\<close>: \<open>net i\<close> is what the connection attempt
  of the \<open>i\<close>-th task meets. A supplied progress callback \<open>cb\<close> is described by what its
  invocation from the \<open>i\<close>-th task does: \<open>cb i = None\<close> when it returns, \<open>Some e\<close> when
  it raises \<open>e\<close>. Each task invokes it at most once, so this covers every callback.
\<close>

type_synonym network = "nat \<Rightarrow> attempt"
type_synonym callback = "nat \<Rightarrow> py_exception option"

text \<open>
  The body of \<open>scan_with_semaphore\<close> between acquiring and releasing the semaphore,
  for the \<open>i\<close>-th task: the task's result for \<open>gather\<close>, and whether the callback was
  invoked. Nothing is awaited between the return of \<open>scan_port\<close> and the release.
\<close>

definition scan_with_semaphore ::
  "network \<Rightarrow> string \<Rightarrow> rat \<Rightarrow> callback option \<Rightarrow> nat \<Rightarrow> int \<Rightarrow> gathered \<times> bool" where
  "scan_with_semaphore net ip timeout progress_callback i port =
     (case scan_port (net i) ip port timeout of
        Inl e \<Rightarrow> (Exc e, False)
      | Inr result \<Rightarrow>
          (case progress_callback of
             None \<Rightarrow> (Tuple result, False)
           | Some cb \<Rightarrow>
               (case cb i of
                  None \<Rightarrow> (Tuple result, True)
                | Some e \<Rightarrow> (Exc e, True))))"

text \<open>
  The event loop runs the tasks interleaved. A task waits for the semaphore, is in
  flight while it holds it (the call of \<open>scan_port\<close> and the callback), and is done
  with its result afterwards. The state of the loop is the counter of the semaphore, the
  state of every task (in the order of \<open>ports\<close>, which is the order \<open>gather\<close> keeps),
  and the log of callback invocations (the index of the invoking task, oldest first).
\<close>

datatype task = Waiting | InFlight | Done gathered

record loop_state =
  sem_value :: nat
  tasks :: "task list"
  progress_log :: "nat list"

datatype event = Acquire nat | Release nat

text \<open>
  One step of the loop. \<open>Acquire i\<close>: task \<open>i\<close> enters \<open>async with semaphore\<close>,
  possible only while the counter is positive. \<open>Release i\<close>: the probe of task \<open>i\<close>
  resolves, the callback runs, the semaphore is released on every exit path. \<open>None\<close>:
  the event cannot happen in this state.
\<close>

fun step ::
  "network \<Rightarrow> string \<Rightarrow> int list \<Rightarrow> rat \<Rightarrow> callback option \<Rightarrow> event \<Rightarrow> loop_state
     \<Rightarrow> loop_state option" where
  "step net ip ports timeout cb (Acquire i) s =
     (if i < length (tasks s) \<and> tasks s ! i = Waiting \<and> 0 < sem_value s
      then Some (s\<lparr>sem_value := sem_value s - 1, tasks := (tasks s)[i := InFlight]\<rparr>)
      else None)"
| "step net ip ports timeout cb (Release i) s =
     (if i < length (tasks s) \<and> i < length ports \<and> tasks s ! i = InFlight
      then (case scan_with_semaphore net ip timeout cb i (ports ! i) of
              (r, called) \<Rightarrow>
                Some (s\<lparr>sem_value := sem_value s + 1,
                        tasks := (tasks s)[i := Done r],
                        progress_log := progress_log s @ (if called then [i] else [])\<rparr>))
      else None)"

text \<open>A schedule is the order in which the loop lets the events happen.\<close>

fun run ::
  "network \<Rightarrow> string \<Rightarrow> int list \<Rightarrow> rat \<Rightarrow> callback option \<Rightarrow> event list \<Rightarrow> loop_state
     \<Rightarrow> loop_state option" where
  "run net ip ports timeout cb [] s = Some s"
| "run net ip ports timeout cb (e # es) s =
     (case step net ip ports timeout cb e s of
        None \<Rightarrow> None
      | Some s' \<Rightarrow> run net ip ports timeout cb es s')"

text \<open>\<open>asyncio.Semaphore(value)\<close> raises \<open>ValueError\<close> for a negative value.\<close>

definition Semaphore :: "int \<Rightarrow> py_exception + nat" where
  "Semaphore v = (if v < 0 then Inl ValueError else Inr (nat v))"

definition init_state :: "nat \<Rightarrow> int list \<Rightarrow> loop_state" where
  "init_state v ports =
     \<lparr>sem_value = v, tasks = replicate (length ports) Waiting, progress_log = []\<rparr>"

text \<open>\<open>gather\<close> returns once every task is done, with the results in the order of the tasks.\<close>

fun gather :: "task list \<Rightarrow> gathered list option" where
  "gather [] = Some []"
| "gather (Done r # ts) = map_option ((#) r) (gather ts)"
| "gather (Waiting # ts) = None"
| "gather (InFlight # ts) = None"

text \<open>The loop that replaces every gathered exception by the sentinel.\<close>

fun valid_results :: "gathered list \<Rightarrow> outcome list" where
  "valid_results [] = []"
| "valid_results (Tuple result # results) = result # valid_results results"
| "valid_results (Exc e # results) = (0, ''error'', None) # valid_results results"

text \<open>
  The state in which the loop is after the schedule \<open>sched\<close>; \<open>None\<close> when \<open>sched\<close> is
  not a possible execution.
\<close>

definition loop_after ::
  "network \<Rightarrow> string \<Rightarrow> int list \<Rightarrow> int \<Rightarrow> rat \<Rightarrow> callback option \<Rightarrow> event list
     \<Rightarrow> loop_state option" where
  "loop_after net ip ports concurrency timeout cb sched =
     (case Semaphore concurrency of
        Inl e \<Rightarrow> None
      | Inr v \<Rightarrow> run net ip ports timeout cb sched (init_state v ports))"

text \<open>
  \<open>scan_ports\<close> under the schedule \<open>sched\<close>: \<open>Some (Inl e)\<close> when the call raises
  \<open>e\<close>, \<open>Some (Inr rs)\<close> when it returns \<open>rs\<close>, \<open>None\<close> when \<open>sched\<close> is not a
  complete execution of the call (some task has not finished, so \<open>gather\<close> has not
  returned).
\<close>

definition scan_ports ::
  "network \<Rightarrow> string \<Rightarrow> int list \<Rightarrow> int \<Rightarrow> rat \<Rightarrow> callback option \<Rightarrow> event list
     \<Rightarrow> (py_exception + outcome list) option" where
  "scan_ports net ip ports concurrency timeout cb sched =
     (case Semaphore concurrency of
        Inl e \<Rightarrow> Some (Inl e)
      | Inr v \<Rightarrow>
          (case run net ip ports timeout cb sched (init_state v ports) of
             None \<Rightarrow> None
           | Some s \<Rightarrow>
               (case gather (tasks s) of
                  None \<Rightarrow> None
                | Some results \<Rightarrow> Some (Inr (valid_results results)))))"

text \<open>The callback invocations made during the execution \<open>sched\<close>.\<close>

definition progress_calls ::
  "network \<Rightarrow> string \<Rightarrow> int list \<Rightarrow> int \<Rightarrow> rat \<Rightarrow> callback option \<Rightarrow> event list \<Rightarrow> nat list" where
  "progress_calls net ip ports concurrency timeout cb sched =
     (case loop_after net ip ports concurrency timeout cb sched of
        None \<Rightarrow> []
      | Some s \<Rightarrow> progress_log s)"

text \<open>The number of tasks that hold the semaphore, that is, of probes in flight.\<close>

definition in_flight :: "loop_state \<Rightarrow> nat" where
  "in_flight s = length (filter (\<lambda>t. t = InFlight) (tasks s))"

text \<open>
  The work a task still has to do: two events while it waits, one while it is in flight.
\<close>

fun weight :: "task \<Rightarrow> nat" where
  "weight Waiting = 2"
| "weight InFlight = 1"
| "weight (Done r) = 0"

definition remaining :: "loop_state \<Rightarrow> nat" where
  "remaining s = sum_list (map weight (tasks s))"

text \<open>
  What a complete execution returns, read off the tasks alone: position \<open>i\<close> holds the
  result of the \<open>i\<close>-th task, with the sentinel in place of an exception.
\<close>

definition expected_results ::
  "network \<Rightarrow> string \<Rightarrow> int list \<Rightarrow> rat \<Rightarrow> callback option \<Rightarrow> outcome list" where
  "expected_results net ip ports timeout cb =
     valid_results
       (map (\<lambda>i. fst (scan_with_semaphore net ip timeout cb i (ports ! i))) [0..<length ports])"

section \<open>utils.py: parsing the port string\<close>

text \<open>
  Strings are ASCII here. \<open>str.strip()\<close> removes the characters for which
  \<open>str.isspace\<close> holds: tab to carriage return, the four separators and the space.
\<close>

definition is_space :: "char \<Rightarrow> bool" where
  "is_space c = (of_char c \<in> {9, 10, 11, 12, 13, 28, 29, 30, 31, 32 :: nat})"

definition strip :: "string \<Rightarrow> string" where
  "strip s = rev (dropWhile is_space (rev (dropWhile is_space s)))"

text \<open>\<open>s.split(sep)\<close> for a one-character separator: never an empty list.\<close>

fun split_on :: "char \<Rightarrow> string \<Rightarrow> string list" where
  "split_on sep [] = [[]]"
| "split_on sep (c # cs) =
     (if c = sep then [] # split_on sep cs
      else (case split_on sep cs of
              [] \<Rightarrow> [[c]]
            | piece # pieces \<Rightarrow> (c # piece) # pieces))"

text \<open>
  \<open>int(s)\<close> in base 10: surrounding whitespace, an optional sign, then decimal digits,
  where single underscores may stand between digits. \<open>None\<close> is the
  \<open>ValueError\<close> whose message starts with \<open>invalid literal\<close>.
\<close>

definition is_digit :: "char \<Rightarrow> bool" where
  "is_digit c = (48 \<le> (of_char c :: nat) \<and> (of_char c :: nat) \<le> 57)"

definition digit_val :: "char \<Rightarrow> nat" where
  "digit_val c = of_char c - 48"

fun parse_digits :: "nat \<Rightarrow> string \<Rightarrow> nat option" where
  "parse_digits acc [] = Some acc"
| "parse_digits acc [c] = (if is_digit c then Some (10 * acc + digit_val c) else None)"
| "parse_digits acc (c # d # ds) =
     (if is_digit c then parse_digits (10 * acc + digit_val c) (d # ds)
      else if c = CHR ''_'' \<and> is_digit d then parse_digits (10 * acc + digit_val d) ds
      else None)"

definition parse_nat :: "string \<Rightarrow> nat option" where
  "parse_nat s =
     (case s of
        [] \<Rightarrow> None
      | c # cs \<Rightarrow> if is_digit c then parse_digits (digit_val c) cs else None)"

definition py_int :: "string \<Rightarrow> int option" where
  "py_int s =
     (case strip s of
        [] \<Rightarrow> None
      | c # cs \<Rightarrow>
          if c = CHR ''-'' then map_option (\<lambda>n. - int n) (parse_nat cs)
          else if c = CHR ''+'' then map_option int (parse_nat cs)
          else map_option int (parse_nat (c # cs)))"

text \<open>
  Every exception that leaves \<open>parse_ports\<close> is a \<open>ValueError\<close>; the constructors tell
  the messages apart: the empty string, a range out of bounds or reversed, a range with
  a piece that is no integer, a range that does not unpack into two values, and a single
  port that is no integer or out of bounds.
\<close>

datatype value_error =
    EmptyPortString
  | BadRange string
  | BadRangeFormat string
  | UnpackError
  | BadPort string

text \<open>
  The branch for a part that contains a hyphen. Unpacking \<open>map(int, part.split('-'))\<close> into
  two names converts the first two pieces and then asks the iterator for a third value:
  a third piece is converted as well, and when that succeeds the unpacking fails with
  \<open>too many values\<close>, which the handler raises again as it is. A failed conversion is
  raised again with the message of \<open>BadRangeFormat\<close>.
\<close>

definition parse_range :: "string \<Rightarrow> value_error + int list" where
  "parse_range part =
     (case split_on CHR ''-'' part of
        [a, b] \<Rightarrow>
          (case py_int a of
             None \<Rightarrow> Inl (BadRangeFormat part)
           | Some start \<Rightarrow>
               (case py_int b of
                  None \<Rightarrow> Inl (BadRangeFormat part)
                | Some stop \<Rightarrow>
                    if start < 1 \<or> stop > 65535 \<or> start > stop then Inl (BadRange part)
                    else Inr [start..stop]))
      | a # b # c # rest \<Rightarrow>
          (case py_int a of
             None \<Rightarrow> Inl (BadRangeFormat part)
           | Some start \<Rightarrow>
               (case py_int b of
                  None \<Rightarrow> Inl (BadRangeFormat part)
                | Some stop \<Rightarrow>
                    (case py_int c of
                       None \<Rightarrow> Inl (BadRangeFormat part)
                     | Some third \<Rightarrow> Inl UnpackError)))
      | _ \<Rightarrow> Inl UnpackError)"

text \<open>The branch for a single port: both failures are raised again as \<open>BadPort\<close>.\<close>

definition parse_port :: "string \<Rightarrow> value_error + int" where
  "parse_port part =
     (case py_int part of
        None \<Rightarrow> Inl (BadPort part)
      | Some port \<Rightarrow> if port < 1 \<or> port > 65535 then Inl (BadPort part) else Inr port)"

text \<open>The loop over the parts, with the set \<open>ports\<close> as accumulator.\<close>

fun parse_parts :: "string list \<Rightarrow> int set \<Rightarrow> value_error + int set" where
  "parse_parts [] ports = Inr ports"
| "parse_parts (p # parts) ports =
     (let part = strip p
      in if CHR ''-'' \<in> set part
         then (case parse_range part of
                 Inl e \<Rightarrow> Inl e
               | Inr expanded \<Rightarrow> parse_parts parts (ports \<union> set expanded))
         else (case parse_port part of
                 Inl e \<Rightarrow> Inl e
               | Inr port \<Rightarrow> parse_parts parts (insert port ports)))"

definition parse_ports :: "string \<Rightarrow> value_error + int list" where
  "parse_ports port_string =
     (if port_string = [] \<or> strip port_string = [] then Inl EmptyPortString
      else (case parse_parts (split_on CHR '','' (strip port_string)) {} of
              Inl e \<Rightarrow> Inl e
            | Inr ports \<Rightarrow> Inr (sorted_list_of_set ports)))"

section \<open>utils.py: descriptions, the text report, the summary\<close>

text \<open>\<open>str(n)\<close> for an integer.\<close>

definition digit_char :: "nat \<Rightarrow> char" where
  "digit_char d = ''0123456789'' ! d"

fun str_nat :: "nat \<Rightarrow> string" where
  "str_nat n = (if n < 10 then [digit_char n] else str_nat (n div 10) @ [digit_char (n mod 10)])"

definition str_int :: "int \<Rightarrow> string" where
  "str_int i = (if i < 0 then CHR ''-'' # str_nat (nat (- i)) else str_nat (nat i))"

definition well_known_ports :: "(int \<times> string) list" where
  "well_known_ports =
     [(21, ''FTP''), (22, ''SSH''), (23, ''Telnet''), (25, ''SMTP''), (53, ''DNS''),
      (80, ''HTTP''), (110, ''POP3''), (111, ''RPC''), (135, ''RPC Endpoint''),
      (139, ''NetBIOS''), (143, ''IMAP''), (443, ''HTTPS''), (993, ''IMAPS''),
      (995, ''POP3S''), (1723, ''PPTP''), (3306, ''MySQL''), (3389, ''RDP''),
      (5432, ''PostgreSQL''), (5900, ''VNC''), (8080, ''HTTP Proxy''),
      (8443, ''HTTPS Alt''), (8888, ''HTTP Alt''), (9090, ''HTTP Alt'')]"

definition get_port_description :: "int \<Rightarrow> string" where
  "get_port_description port =
     (case map_of well_known_ports port of
        Some description \<Rightarrow> description
      | None \<Rightarrow> ''Port '' @ str_int port)"

text \<open>
  The format specifications \<open>5d\<close> (right-aligned, at least five characters) and
  \<open>15s\<close>, \<open>8s\<close> (left-aligned, at least that many characters), and \<open>str(v)\<close>.
\<close>

definition rjust :: "nat \<Rightarrow> string \<Rightarrow> string" where
  "rjust w s = replicate (w - length s) CHR '' '' @ s"

definition ljust :: "nat \<Rightarrow> string \<Rightarrow> string" where
  "ljust w s = s @ replicate (w - length s) CHR '' ''"

fun py_str :: "py_val \<Rightarrow> string" where
  "py_str (PyInt i) = str_int i"
| "py_str (PyStr s) = s"
| "py_str PyNone = ''None''"

text \<open>
  What one pass of the loop of \<open>save_results_txt\<close> writes for \<open>result\<close>: the two
  \<open>write\<close> calls and the newline. A missing key raises \<open>KeyError\<close>; a port that is no
  integer or a status that is no string does not accept its format specification.
\<close>

definition result_line :: "result \<Rightarrow> py_exception + string" where
  "result_line result =
     (case result ''port'' of
        None \<Rightarrow> Inl KeyError
      | Some port \<Rightarrow>
          (case result ''status'' of
             None \<Rightarrow> Inl KeyError
           | Some status \<Rightarrow>
               (let time_ms = (case result ''time_ms'' of None \<Rightarrow> PyStr ''N/A'' | Some v \<Rightarrow> v)
                in case (port, status) of
                     (PyInt p, PyStr st) \<Rightarrow>
                       Inr (''Port '' @ rjust 5 (str_int p)
                            @ '' ('' @ ljust 15 (get_port_description p) @ ''): ''
                            @ ljust 8 st
                            @ (if time_ms \<noteq> PyStr ''N/A'' then '' ('' @ py_str time_ms @ ''ms)''
                               else [])
                            @ [CHR 0x0A])
                   | _ \<Rightarrow> Inl TypeError)))"

text \<open>
  The text written by \<open>save_results_txt\<close>, as the list of its lines; \<open>now\<close> is the
  formatted time of the call. Errors of the file system are not modelled.
\<close>

fun result_lines :: "result list \<Rightarrow> py_exception + string list" where
  "result_lines [] = Inr []"
| "result_lines (result # results) =
     (case result_line result of
        Inl e \<Rightarrow> Inl e
      | Inr line \<Rightarrow>
          (case result_lines results of
             Inl e \<Rightarrow> Inl e
           | Inr lines \<Rightarrow> Inr (line # lines)))"

definition save_results_txt :: "result list \<Rightarrow> string \<Rightarrow> string \<Rightarrow> py_exception + string list" where
  "save_results_txt results host now =
     (case result_lines results of
        Inl e \<Rightarrow> Inl e
      | Inr lines \<Rightarrow>
          Inr ([''Port Scan Results for '' @ host @ [CHR 0x0A],
                ''Scan Date: '' @ now @ [CHR 0x0A],
                ''Total Ports Scanned: '' @ str_int (int (length results)) @ [CHR 0x0A],
                replicate 50 CHR ''-'' @ [CHR 0x0A, CHR 0x0A]]
               @ lines))"

text \<open>
  \<open>create_summary\<close>: the summary is a dictionary from keys to counters. One pass of the
  loop reads the status with the default \<open>"error"\<close> and increments the counter stored
  under it when the status is a key of the summary.
\<close>

type_synonym summary = "string \<rightharpoonup> int"

definition status_of :: "result \<Rightarrow> py_val" where
  "status_of result = (case result ''status'' of None \<Rightarrow> PyStr ''error'' | Some v \<Rightarrow> v)"

definition count_result :: "summary \<Rightarrow> result \<Rightarrow> summary" where
  "count_result summary result =
     (case status_of result of
        PyStr status \<Rightarrow>
          (case summary status of
             Some n \<Rightarrow> summary(status \<mapsto> n + 1)
           | None \<Rightarrow> summary)
      | _ \<Rightarrow> summary)"

definition create_summary :: "result list \<Rightarrow> summary" where
  "create_summary results =
     foldl count_result
       [''total'' \<mapsto> int (length results), ''open'' \<mapsto> 0, ''closed'' \<mapsto> 0,
        ''timeout'' \<mapsto> 0, ''error'' \<mapsto> 0]
       results"

text \<open>The number of results whose status, read with the default, is the string \<open>k\<close>.\<close>

definition status_count :: "string \<Rightarrow> result list \<Rightarrow> nat" where
  "status_count k results = length (filter (\<lambda>r. status_of r = PyStr k) results)"

text \<open>Whether the status of a result, read with the default, is one of the four keywords.\<close>

definition recognised :: "result \<Rightarrow> bool" where
  "recognised r =
     (status_of r = PyStr ''open'' \<or> status_of r = PyStr ''closed''
      \<or> status_of r = PyStr ''timeout'' \<or> status_of r = PyStr ''error'')"

section \<open>main_gui.py: aggregation\<close>

text \<open>The fields of the application that the scan reads and writes.\<close>

record app =
  is_scanning :: bool
  scan_results :: "result list"
  current_host :: string
  total_ports :: nat
  scanned_ports :: nat

text \<open>The dictionary that \<open>process_results\<close> builds from one tuple.\<close>

definition to_result :: "outcome \<Rightarrow> result" where
  "to_result t =
     (case t of
        (port, status, time_ms) \<Rightarrow>
          [''port'' \<mapsto> PyInt port,
           ''status'' \<mapsto> PyStr status,
           ''time_ms'' \<mapsto> (case time_ms of None \<Rightarrow> PyNone | Some ms \<Rightarrow> PyInt ms),
           ''description'' \<mapsto> PyStr (get_port_description port)])"

text \<open>
  The sort key \<open>x["port"]\<close>. The dictionaries sorted by \<open>process_results\<close> were built
  by it with an integer under that key, so no other case is reached.
\<close>

definition port_key :: "result \<Rightarrow> int" where
  "port_key x = (case x ''port'' of Some (PyInt p) \<Rightarrow> p)"

text \<open>
  \<open>process_results\<close> replaces \<open>scan_results\<close> by the dictionaries of the tuples, sorted
  by port with Python's stable sort. The rows of the table widget are not modelled.
\<close>

definition process_results :: "outcome list \<Rightarrow> app \<Rightarrow> app" where
  "process_results results a = a\<lparr>scan_results := sort_key port_key (map to_result results)\<rparr>"

text \<open>
  Aggregation as the application performs it after a scan: \<open>process_results\<close>, then
  \<open>create_summary\<close> on the stored results.
\<close>

definition aggregate :: "outcome list \<Rightarrow> app \<Rightarrow> app \<times> summary" where
  "aggregate results a =
     (let a' = process_results results a in (a', create_summary (scan_results a')))"

text \<open>
  A request as the application issues it: a non-empty list of distinct ports between
  1 and 65535, a positive concurrency limit and a positive timeout.
\<close>

definition valid_request :: "int list \<Rightarrow> int \<Rightarrow> rat \<Rightarrow> bool" where
  "valid_request ports concurrency timeout =
     (ports \<noteq> [] \<and> distinct ports \<and> list_all (\<lambda>p. 1 \<le> p \<and> p \<le> 65535) ports
      \<and> 0 < concurrency \<and> 0 < timeout)"

text \<open>Whether the task of index \<open>i\<close> ends in an exception.\<close>

definition faulted :: "network \<Rightarrow> string \<Rightarrow> rat \<Rightarrow> callback option \<Rightarrow> nat \<Rightarrow> int \<Rightarrow> bool" where
  "faulted net ip timeout cb i port =
     (case fst (scan_with_semaphore net ip timeout cb i port) of
        Tuple r \<Rightarrow> False
      | Exc e \<Rightarrow> True)"

section \<open>Concrete worlds\<close>

text \<open>A connection accepted after 12 ms, a refused one, and one that gets no answer.\<close>

definition accepting :: attempt where
  "accepting = \<lparr>start_time = 0, open_connection = None, wait_closed = None, end_time = 3 / 250\<rparr>"

definition refusing :: attempt where
  "refusing =
     \<lparr>start_time = 0, open_connection = Some ConnectionRefusedError, wait_closed = None,
      end_time = 0\<rparr>"

definition silent :: attempt where
  "silent =
     \<lparr>start_time = 0, open_connection = Some TimeoutError, wait_closed = None, end_time = 0\<rparr>"

text \<open>A network on which only the probe of the first task is accepted.\<close>

definition first_open :: network where
  "first_open i = (if i = 0 then accepting else refusing)"

text \<open>A callback that returns, and one whose invocation from the first task raises.\<close>

definition counting :: callback where
  "counting i = None"

definition raising_first :: callback where
  "raising_first i = (if i = 0 then Some OtherException else None)"

text \<open>A result whose status is none of the four keywords.\<close>

definition filtered_result :: result where
  "filtered_result = [''port'' \<mapsto> PyInt 80, ''status'' \<mapsto> PyStr ''filtered'']"

text \<open>The application before its first scan.\<close>

definition fresh_app :: app where
  "fresh_app =
     \<lparr>is_scanning = False, scan_results = [], current_host = [], total_ports = 0,
      scanned_ports = 0\<rparr>"

section \<open>Properties of the probe\<close>

lemma scan_port_cases:
  "scan_port a ip port timeout = Inr (port, ''open'', Some (py_round ((end_time a - start_time a) * 1000)))
   \<or> scan_port a ip port timeout = Inr (port, ''timeout'', None)
   \<or> scan_port a ip port timeout = Inr (port, ''closed'', None)
   \<or> scan_port a ip port timeout = Inr (port, ''error'', None)"
  by (simp add: scan_port_def try_connect_def split: option.splits sum.splits)

text \<open>
  C1. For every host, port and timeout, and whatever the connection attempt does,
  \<open>scan_port\<close> returns a triple \<open>(port, status, elapsed)\<close> and raises nothing; the
  status is one of the four keywords; \<open>elapsed\<close> is an integer (a number of whole
  milliseconds) when the status is \<open>open\<close> and \<open>None\<close> for every other status.
\<close>

theorem scan_port_classified:
  "(\<exists>ms::int. scan_port a ip port timeout = Inr (port, ''open'', Some ms))
   \<or> scan_port a ip port timeout = Inr (port, ''closed'', None)
   \<or> scan_port a ip port timeout = Inr (port, ''timeout'', None)
   \<or> scan_port a ip port timeout = Inr (port, ''error'', None)"
  using scan_port_cases [of a ip port timeout] by auto

section \<open>Properties of the scheduler\<close>

lemma run_invariant:
  assumes "run net ip ports timeout cb sched s = Some s'" and "P s"
    and "\<And>e s s'. P s \<Longrightarrow> step net ip ports timeout cb e s = Some s' \<Longrightarrow> P s'"
  shows "P s'"
  using assms(1,2)
proof (induction sched arbitrary: s)
  case Nil
  then show ?case by simp
next
  case (Cons e es)
  then obtain s1 where s1: "step net ip ports timeout cb e s = Some s1"
    and r: "run net ip ports timeout cb es s1 = Some s'"
    by (auto split: option.splits)
  from assms(3) [OF Cons.prems(2) s1] Cons.IH [OF r] show ?case by simp
qed

lemma filter_update_length:
  "i < length xs \<Longrightarrow>
   length (filter P (xs[i := v])) + (if P (xs ! i) then 1 else 0)
     = length (filter P xs) + (if P v then 1 else 0)"
proof (induction xs arbitrary: i)
  case Nil
  then show ?case by simp
next
  case (Cons x xs)
  show ?case
  proof (cases i)
    case 0
    then show ?thesis by simp
  next
    case (Suc j)
    with Cons.prems have "j < length xs" by simp
    from Cons.IH [OF this] Suc show ?thesis by simp
  qed
qed

lemma step_length:
  "step net ip ports timeout cb e s = Some s' \<Longrightarrow> length (tasks s') = length (tasks s)"
  by (cases e) (auto split: if_splits prod.splits)

lemma step_slots:
  assumes "step net ip ports timeout cb e s = Some s'"
  shows "sem_value s' + in_flight s' = sem_value s + in_flight s"
proof (cases e)
  case (Acquire i)
  with assms have i: "i < length (tasks s)" "tasks s ! i = Waiting" "0 < sem_value s"
    and s': "s' = s\<lparr>sem_value := sem_value s - 1, tasks := (tasks s)[i := InFlight]\<rparr>"
    by (auto split: if_splits)
  from filter_update_length [OF i(1), of "\<lambda>t. t = InFlight" InFlight] i(2)
  have "in_flight s' = in_flight s + 1" by (simp add: in_flight_def s')
  with i(3) show ?thesis by (simp add: s')
next
  case (Release i)
  with assms obtain r where i: "i < length (tasks s)" "tasks s ! i = InFlight"
    and s': "tasks s' = (tasks s)[i := Done r]" "sem_value s' = sem_value s + 1"
    by (auto split: if_splits prod.splits)
  from filter_update_length [OF i(1), of "\<lambda>t. t = InFlight" "Done r"] i(2)
  have "in_flight s' + 1 = in_flight s" by (simp add: in_flight_def s')
  with s' show ?thesis by simp
qed

lemma run_length:
  "run net ip ports timeout cb sched s = Some s' \<Longrightarrow> length (tasks s') = length (tasks s)"
  by (rule run_invariant [where P = "\<lambda>x. length (tasks x) = length (tasks s)"])
     (auto dest: step_length)

lemma run_slots:
  "run net ip ports timeout cb sched s = Some s'
   \<Longrightarrow> sem_value s' + in_flight s' = sem_value s + in_flight s"
  by (rule run_invariant [where P = "\<lambda>x. sem_value x + in_flight x = sem_value s + in_flight s"])
     (auto dest: step_slots)

lemma in_flight_init: "in_flight (init_state v ports) = 0"
  by (simp add: in_flight_def init_state_def)

text \<open>
  C6. At every moment of a call of \<open>scan_ports\<close> with concurrency limit \<open>c\<close>, that is,
  in the state after any possible sequence of events, at most \<open>c\<close> tasks hold the
  semaphore, so at most \<open>c\<close> calls of \<open>scan_port\<close> are in flight, however many ports
  were requested.
\<close>

theorem in_flight_bounded:
  assumes "loop_after net ip ports concurrency timeout cb sched = Some s"
  shows "int (in_flight s) \<le> concurrency"
proof -
  from assms have c: "0 \<le> concurrency"
    and r: "run net ip ports timeout cb sched (init_state (nat concurrency) ports) = Some s"
    by (auto simp: loop_after_def Semaphore_def split: if_splits)
  have "sem_value (init_state (nat concurrency) ports) = nat concurrency"
    by (simp add: init_state_def)
  with run_slots [OF r] have "sem_value s + in_flight s = nat concurrency"
    by (simp add: in_flight_init)
  with c show ?thesis by linarith
qed

lemma step_done:
  assumes "step net ip ports timeout cb e s = Some s'"
    and "\<forall>i<length (tasks s). \<forall>r. tasks s ! i = Done r
           \<longrightarrow> r = fst (scan_with_semaphore net ip timeout cb i (ports ! i))"
  shows "\<forall>i<length (tasks s'). \<forall>r. tasks s' ! i = Done r
           \<longrightarrow> r = fst (scan_with_semaphore net ip timeout cb i (ports ! i))"
proof (cases e)
  case (Acquire j)
  with assms(1) have "tasks s' = (tasks s)[j := InFlight]" "j < length (tasks s)"
    by (auto split: if_splits)
  with assms(2) show ?thesis by (auto simp: nth_list_update)
next
  case (Release j)
  with assms(1) have "tasks s' = (tasks s)[j := Done (fst (scan_with_semaphore net ip timeout cb j (ports ! j)))]"
    "j < length (tasks s)"
    by (auto split: if_splits prod.splits)
  with assms(2) show ?thesis by (auto simp: nth_list_update)
qed

lemma run_done:
  assumes "run net ip ports timeout cb sched (init_state v ports) = Some s"
    and "i < length ports" and "tasks s ! i = Done r"
  shows "r = fst (scan_with_semaphore net ip timeout cb i (ports ! i))"
proof -
  let ?P = "\<lambda>x. \<forall>i<length (tasks x). \<forall>r. tasks x ! i = Done r
           \<longrightarrow> r = fst (scan_with_semaphore net ip timeout cb i (ports ! i))"
  have "?P s"
    by (rule run_invariant [OF assms(1), where P = ?P])
       (simp add: init_state_def, erule (1) step_done)
  moreover from run_length [OF assms(1)] have "length (tasks s) = length ports"
    by (simp add: init_state_def)
  ultimately show ?thesis using assms(2,3) by simp
qed

lemma gather_Some: "gather ts = Some rs \<longleftrightarrow> ts = map Done rs"
proof (induction ts arbitrary: rs)
  case Nil
  then show ?case by auto
next
  case (Cons t ts)
  then show ?case by (cases t) (auto simp: map_eq_Cons_conv)
qed

lemma valid_results_map:
  "valid_results rs = map (\<lambda>g. case g of Tuple r \<Rightarrow> r | Exc e \<Rightarrow> (0, ''error'', None)) rs"
  by (induction rs rule: valid_results.induct) simp_all

lemma scan_port_returns: "\<exists>r. scan_port a ip port timeout = Inr r"
  using scan_port_cases [of a ip port timeout] by auto

lemma callback_invoked:
  "scan_with_semaphore net ip timeout (Some f) i port = (r, called) \<Longrightarrow> called"
  using scan_port_returns [of "net i" ip port timeout]
  by (auto simp: scan_with_semaphore_def split: option.splits)

lemma callback_absent:
  "scan_with_semaphore net ip timeout None i port = (r, called) \<Longrightarrow> \<not> called"
  by (auto simp: scan_with_semaphore_def split: sum.splits)

lemma step_log:
  assumes "step net ip ports timeout (Some f) e s = Some s'"
    and "distinct (progress_log s)"
    and "set (progress_log s) = {i. i < length (tasks s) \<and> (\<exists>r. tasks s ! i = Done r)}"
  shows "distinct (progress_log s')
     \<and> set (progress_log s') = {i. i < length (tasks s') \<and> (\<exists>r. tasks s' ! i = Done r)}"
proof (cases e)
  case (Acquire j)
  with assms(1) have j: "j < length (tasks s)" "tasks s ! j = Waiting"
    and s': "tasks s' = (tasks s)[j := InFlight]" "progress_log s' = progress_log s"
    by (auto split: if_splits)
  have "{i. i < length (tasks s') \<and> (\<exists>r. tasks s' ! i = Done r)}
      = {i. i < length (tasks s) \<and> (\<exists>r. tasks s ! i = Done r)}"
    using j by (auto simp: s' nth_list_update)
  with assms(2,3) s' show ?thesis by simp
next
  case (Release j)
  with assms(1) obtain r called where j: "j < length (tasks s)" "tasks s ! j = InFlight"
    and sws: "scan_with_semaphore net ip timeout (Some f) j (ports ! j) = (r, called)"
    and s': "tasks s' = (tasks s)[j := Done r]"
      "progress_log s' = progress_log s @ (if called then [j] else [])"
    by (auto split: if_splits prod.splits)
  from callback_invoked [OF sws] s' have log: "progress_log s' = progress_log s @ [j]"
    by simp
  from assms(3) j have "j \<notin> set (progress_log s)" by simp
  moreover have "{i. i < length (tasks s') \<and> (\<exists>r. tasks s' ! i = Done r)}
      = insert j {i. i < length (tasks s) \<and> (\<exists>r. tasks s ! i = Done r)}"
    using j by (auto simp: s' nth_list_update)
  ultimately show ?thesis using assms(2,3) log by simp
qed

lemma run_log:
  assumes "run net ip ports timeout (Some f) sched (init_state v ports) = Some s"
  shows "distinct (progress_log s)
     \<and> set (progress_log s) = {i. i < length (tasks s) \<and> (\<exists>r. tasks s ! i = Done r)}"
proof (rule run_invariant [OF assms,
        where P = "\<lambda>x. distinct (progress_log x)
          \<and> set (progress_log x) = {i. i < length (tasks x) \<and> (\<exists>r. tasks x ! i = Done r)}"])
  show "distinct (progress_log (init_state v ports))
     \<and> set (progress_log (init_state v ports))
       = {i. i < length (tasks (init_state v ports))
            \<and> (\<exists>r. tasks (init_state v ports) ! i = Done r)}"
    by (simp add: init_state_def)
next
  fix e x x'
  assume "distinct (progress_log x)
     \<and> set (progress_log x) = {i. i < length (tasks x) \<and> (\<exists>r. tasks x ! i = Done r)}"
    and "step net ip ports timeout (Some f) e x = Some x'"
  then show "distinct (progress_log x')
     \<and> set (progress_log x') = {i. i < length (tasks x') \<and> (\<exists>r. tasks x' ! i = Done r)}"
    using step_log by blast
qed

lemma step_no_log:
  "step net ip ports timeout None e s = Some s' \<Longrightarrow> progress_log s = [] \<Longrightarrow> progress_log s' = []"
  by (cases e) (auto split: if_splits prod.splits dest: callback_absent)

lemma run_no_log:
  assumes "run net ip ports timeout None sched (init_state v ports) = Some s"
  shows "progress_log s = []"
  by (rule run_invariant [OF assms, where P = "\<lambda>x. progress_log x = []"])
     (simp add: init_state_def, erule (1) step_no_log)

lemma weight_update:
  assumes "j < length ts"
  shows "sum_list (map weight (ts[j := t])) + weight (ts ! j)
       = sum_list (map weight ts) + weight t"
proof -
  from assms have "weight (ts ! j) \<le> sum_list (map weight ts)"
    by (simp add: member_le_sum_list)
  with assms show ?thesis
    by (simp add: map_update sum_list_update)
qed

lemma step_remaining:
  assumes "step net ip ports timeout cb e s = Some s'"
  shows "Suc (remaining s') = remaining s"
proof (cases e)
  case (Acquire j)
  with assms have j: "j < length (tasks s)" "tasks s ! j = Waiting"
    and s': "tasks s' = (tasks s)[j := InFlight]"
    by (auto split: if_splits)
  from weight_update [OF j(1), of InFlight] j(2) show ?thesis
    by (simp add: remaining_def s')
next
  case (Release j)
  with assms obtain r where j: "j < length (tasks s)" "tasks s ! j = InFlight"
    and s': "tasks s' = (tasks s)[j := Done r]"
    by (auto split: if_splits prod.splits)
  from weight_update [OF j(1), of "Done r"] j(2) show ?thesis
    by (simp add: remaining_def s')
qed

lemma run_remaining:
  "run net ip ports timeout cb sched s = Some s' \<Longrightarrow> remaining s' + length sched = remaining s"
proof (induction sched arbitrary: s)
  case Nil
  then show ?case by simp
next
  case (Cons e es)
  then obtain s1 where s1: "step net ip ports timeout cb e s = Some s1"
    and r: "run net ip ports timeout cb es s1 = Some s'"
    by (auto split: option.splits)
  from Cons.IH [OF r] step_remaining [OF s1] show ?case by simp
qed

lemma gather_None:
  "gather ts = None \<longleftrightarrow> (\<exists>i<length ts. ts ! i = Waiting \<or> ts ! i = InFlight)"
proof (induction ts)
  case Nil
  then show ?case by simp
next
  case (Cons t ts)
  then show ?case by (cases t) (simp_all add: Ex_less_Suc2)
qed

lemma in_flight_zero:
  "in_flight s = 0 \<longleftrightarrow> (\<forall>i<length (tasks s). tasks s ! i \<noteq> InFlight)"
  by (auto simp: in_flight_def filter_empty_conv in_set_conv_nth)

lemma no_deadlock:
  assumes "gather (tasks s) = None" and "0 < sem_value s + in_flight s"
    and "length (tasks s) = length ports"
  shows "\<exists>e s'. step net ip ports timeout cb e s = Some s'"
proof (cases "in_flight s = 0")
  case True
  with assms(1) obtain i where i: "i < length (tasks s)" "tasks s ! i = Waiting"
    by (auto simp: gather_None in_flight_zero)
  from True assms(2) have "0 < sem_value s" by simp
  with i have "step net ip ports timeout cb (Acquire i) s \<noteq> None" by simp
  then show ?thesis by blast
next
  case False
  then obtain i where i: "i < length (tasks s)" "tasks s ! i = InFlight"
    by (auto simp: in_flight_zero)
  with assms(3) have "step net ip ports timeout cb (Release i) s \<noteq> None"
    by (simp split: prod.splits)
  then show ?thesis by blast
qed

lemma completes_from:
  assumes "0 < sem_value s + in_flight s" and "length (tasks s) = length ports"
  shows "\<exists>sched s' rs. run net ip ports timeout cb sched s = Some s' \<and> gather (tasks s') = Some rs"
  using assms
proof (induction "remaining s" arbitrary: s)
  case 0
  then have "\<forall>t\<in>set (tasks s). weight t = 0" by (simp add: remaining_def)
  then have "gather (tasks s) \<noteq> None"
    by (auto simp: gather_None) (metis nth_mem weight.simps(1) zero_neq_numeral, 
         metis nth_mem weight.simps(2) zero_neq_one)
  then obtain rs where "gather (tasks s) = Some rs" by blast
  then have "run net ip ports timeout cb [] s = Some s \<and> gather (tasks s) = Some rs" by simp
  then show ?case by blast
next
  case (Suc n)
  show ?case
  proof (cases "gather (tasks s)")
    case (Some rs)
    then have "run net ip ports timeout cb [] s = Some s \<and> gather (tasks s) = Some rs" by simp
    then show ?thesis by blast
  next
    case None
    from no_deadlock [OF None Suc.prems, of net ip timeout cb]
    obtain e s1 where s1: "step net ip ports timeout cb e s = Some s1" by blast
    from step_remaining [OF s1] Suc.hyps(2) have "n = remaining s1" by simp
    moreover from step_slots [OF s1] Suc.prems(1) have "0 < sem_value s1 + in_flight s1" by simp
    moreover from step_length [OF s1] Suc.prems(2) have "length (tasks s1) = length ports" by simp
    ultimately have "\<exists>sched s' rs.
        run net ip ports timeout cb sched s1 = Some s' \<and> gather (tasks s') = Some rs"
      by (rule Suc.hyps(1))
    then obtain sched s' rs where
      "run net ip ports timeout cb sched s1 = Some s'" "gather (tasks s') = Some rs"
      by blast
    with s1 have "run net ip ports timeout cb (e # sched) s = Some s' \<and> gather (tasks s') = Some rs"
      by simp
    then show ?thesis by blast
  qed
qed

lemma run_append:
  "run net ip ports timeout cb (xs @ ys) s =
     (case run net ip ports timeout cb xs s of
        None \<Rightarrow> None
      | Some s1 \<Rightarrow> run net ip ports timeout cb ys s1)"
  by (induction xs arbitrary: s) (auto split: option.splits)

lemma scan_ports_expected:
  assumes "scan_ports net ip ports concurrency timeout cb sched = Some (Inr rs)"
  shows "rs = expected_results net ip ports timeout cb"
proof -
  from assms obtain s gs where
    r: "run net ip ports timeout cb sched (init_state (nat concurrency) ports) = Some s"
    and g: "gather (tasks s) = Some gs" and rs: "rs = valid_results gs"
    by (auto simp: scan_ports_def Semaphore_def split: if_splits option.splits)
  from g have ts: "tasks s = map Done gs" by (simp add: gather_Some)
  from run_length [OF r] ts have len: "length gs = length ports"
    by (simp add: init_state_def)
  have "gs = map (\<lambda>i. fst (scan_with_semaphore net ip timeout cb i (ports ! i))) [0..<length ports]"
  proof (rule nth_equalityI)
    show "length gs = length (map (\<lambda>i. fst (scan_with_semaphore net ip timeout cb i (ports ! i)))
        [0..<length ports])"
      using len by simp
  next
    fix i assume i: "i < length gs"
    with ts have "tasks s ! i = Done (gs ! i)" by simp
    from run_done [OF r _ this] i len
    show "gs ! i = map (\<lambda>i. fst (scan_with_semaphore net ip timeout cb i (ports ! i)))
        [0..<length ports] ! i"
      by simp
  qed
  with rs show ?thesis by (simp add: expected_results_def)
qed

lemma expected_length: "length (expected_results net ip ports timeout cb) = length ports"
  by (simp add: expected_results_def valid_results_map)

lemma expected_nth:
  "i < length ports \<Longrightarrow>
   expected_results net ip ports timeout cb ! i =
     (case fst (scan_with_semaphore net ip timeout cb i (ports ! i)) of
        Tuple r \<Rightarrow> r
      | Exc e \<Rightarrow> (0, ''error'', None))"
  by (simp add: expected_results_def valid_results_map)

lemma scan_ports_no_raise:
  assumes "0 \<le> concurrency"
    and "scan_ports net ip ports concurrency timeout cb sched = Some ret"
  shows "\<exists>rs. ret = Inr rs"
  using assms by (auto simp: scan_ports_def Semaphore_def split: option.splits)

lemma scan_ports_completes:
  assumes "0 < concurrency"
    and "loop_after net ip ports concurrency timeout cb sched = Some s"
  shows "\<exists>more rs. scan_ports net ip ports concurrency timeout cb (sched @ more) = Some (Inr rs)"
proof -
  from assms have r: "run net ip ports timeout cb sched (init_state (nat concurrency) ports) = Some s"
    by (auto simp: loop_after_def Semaphore_def split: if_splits)
  from run_slots [OF r] assms(1) have "0 < sem_value s + in_flight s"
    by (simp add: init_state_def)
  moreover from run_length [OF r] have "length (tasks s) = length ports"
    by (simp add: init_state_def)
  ultimately have "\<exists>more s' gs.
      run net ip ports timeout cb more s = Some s' \<and> gather (tasks s') = Some gs"
    by (rule completes_from)
  then obtain more s' gs where
    "run net ip ports timeout cb more s = Some s'" "gather (tasks s') = Some gs"
    by blast
  with r assms(1) have
    "scan_ports net ip ports concurrency timeout cb (sched @ more) = Some (Inr (valid_results gs))"
    by (simp add: scan_ports_def Semaphore_def run_append)
  then show ?thesis by blast
qed

text \<open>
  C3. With a positive concurrency limit, every execution of \<open>scan_ports\<close> can be
  continued to one that returns, and a call that has finished never raises: it returns a
  list with one entry per launched task, in which the entry of every task that ended in
  an exception (its gathered result is not a tuple) is the sentinel
  \<open>(0, "error", None)\<close>.
\<close>

theorem fault_substituted:
  assumes "0 < concurrency"
  shows "(\<forall>sched s. loop_after net ip ports concurrency timeout cb sched = Some s \<longrightarrow>
            (\<exists>more rs.
               scan_ports net ip ports concurrency timeout cb (sched @ more) = Some (Inr rs)))
       \<and> (\<forall>sched ret. scan_ports net ip ports concurrency timeout cb sched = Some ret \<longrightarrow>
            (\<exists>rs. ret = Inr rs \<and> length rs = length ports
               \<and> (\<forall>i<length ports. \<forall>e.
                     fst (scan_with_semaphore net ip timeout cb i (ports ! i)) = Exc e
                     \<longrightarrow> rs ! i = (0, ''error'', None))))"
proof (intro conjI allI impI)
  fix sched s
  assume "loop_after net ip ports concurrency timeout cb sched = Some s"
  with assms show "\<exists>more rs.
      scan_ports net ip ports concurrency timeout cb (sched @ more) = Some (Inr rs)"
    by (rule scan_ports_completes)
next
  fix sched ret
  assume ret: "scan_ports net ip ports concurrency timeout cb sched = Some ret"
  with assms obtain rs where rs: "ret = Inr rs"
    using scan_ports_no_raise [of concurrency net ip ports timeout cb sched ret] by auto
  with ret have "rs = expected_results net ip ports timeout cb"
    by (simp add: scan_ports_expected)
  then have "length rs = length ports
     \<and> (\<forall>i<length ports. \<forall>e.
           fst (scan_with_semaphore net ip timeout cb i (ports ! i)) = Exc e
           \<longrightarrow> rs ! i = (0, ''error'', None))"
    by (simp add: expected_length expected_nth)
  with rs show "\<exists>rs. ret = Inr rs \<and> length rs = length ports
     \<and> (\<forall>i<length ports. \<forall>e.
           fst (scan_with_semaphore net ip timeout cb i (ports ! i)) = Exc e
           \<longrightarrow> rs ! i = (0, ''error'', None))"
    by blast
qed

text \<open>
  C5. When a callback is supplied, a call of \<open>scan_ports\<close> over \<open>n\<close> ports that has
  returned has invoked the callback \<open>n\<close> times, once from the task of each requested
  port and never twice from the same task, whatever the outcomes of the probes and
  whatever the callback does.
\<close>

theorem progress_once_per_port:
  assumes "scan_ports net ip ports concurrency timeout (Some f) sched = Some (Inr rs)"
  shows "length (progress_calls net ip ports concurrency timeout (Some f) sched) = length ports
     \<and> distinct (progress_calls net ip ports concurrency timeout (Some f) sched)
     \<and> set (progress_calls net ip ports concurrency timeout (Some f) sched) = {..<length ports}"
proof -
  from assms obtain s gs where
    r: "run net ip ports timeout (Some f) sched (init_state (nat concurrency) ports) = Some s"
    and g: "gather (tasks s) = Some gs" and c: "0 \<le> concurrency"
    by (auto simp: scan_ports_def Semaphore_def split: if_splits option.splits)
  from r c have calls: "progress_calls net ip ports concurrency timeout (Some f) sched = progress_log s"
    by (simp add: progress_calls_def loop_after_def Semaphore_def)
  from g have ts: "tasks s = map Done gs" by (simp add: gather_Some)
  from run_length [OF r] have len: "length (tasks s) = length ports"
    by (simp add: init_state_def)
  from run_log [OF r] have d: "distinct (progress_log s)"
    and st: "set (progress_log s) = {i. i < length (tasks s) \<and> (\<exists>r. tasks s ! i = Done r)}"
    by simp_all
  from ts have "{i. i < length (tasks s) \<and> (\<exists>r. tasks s ! i = Done r)} = {..<length (tasks s)}"
    by auto
  with st len have st': "set (progress_log s) = {..<length ports}" by simp
  from d have "length (progress_log s) = card (set (progress_log s))"
    by (simp add: distinct_card)
  with st' have "length (progress_log s) = length ports" by simp
  with d st' calls show ?thesis by simp
qed

text \<open>
  C10. The list returned by \<open>scan_ports\<close> is as long as \<open>ports\<close>, and for every
  index \<open>i\<close> its \<open>i\<close>-th entry is either the sentinel \<open>(0, "error", None)\<close> or the
  outcome that \<open>scan_port\<close> classified for \<open>ports[i]\<close>, which carries that port number.
\<close>

theorem results_aligned:
  assumes "scan_ports net ip ports concurrency timeout cb sched = Some (Inr rs)"
    and "i < length ports"
  shows "length rs = length ports
     \<and> (rs ! i = (0, ''error'', None)
        \<or> (scan_port (net i) ip (ports ! i) timeout = Inr (rs ! i) \<and> fst (rs ! i) = ports ! i))"
proof -
  from assms(1) have rs: "rs = expected_results net ip ports timeout cb"
    by (rule scan_ports_expected)
  have "expected_results net ip ports timeout cb ! i = (0, ''error'', None)
     \<or> (scan_port (net i) ip (ports ! i) timeout = Inr (expected_results net ip ports timeout cb ! i)
        \<and> fst (expected_results net ip ports timeout cb ! i) = ports ! i)"
    using scan_port_cases [of "net i" ip "ports ! i" timeout] assms(2)
    by (auto simp: expected_nth scan_with_semaphore_def split: option.splits)
  with rs show ?thesis by (simp add: expected_length)
qed

theorem in_flight_bounded_witness:
  "loop_after first_open ''127.0.0.1'' [80, 443, 8080] 2 1 None [Acquire 0, Acquire 2]
     = Some \<lparr>sem_value = 0, tasks = [InFlight, Waiting, InFlight], progress_log = []\<rparr>
   \<and> int (in_flight \<lparr>sem_value = 0, tasks = [InFlight, Waiting, InFlight], progress_log = []\<rparr>) \<le> 2
   \<and> loop_after first_open ''127.0.0.1'' [80, 443, 8080] 2 1 None [Acquire 0, Acquire 2, Acquire 1]
     = None"
proof -
  have h: "loop_after first_open ''127.0.0.1'' [80, 443, 8080] 2 1 None [Acquire 0, Acquire 2]
     = Some \<lparr>sem_value = 0, tasks = [InFlight, Waiting, InFlight], progress_log = []\<rparr>"
    by (simp add: loop_after_def Semaphore_def init_state_def)
  have "loop_after first_open ''127.0.0.1'' [80, 443, 8080] 2 1 None [Acquire 0, Acquire 2, Acquire 1]
     = None"
    by (simp add: loop_after_def Semaphore_def init_state_def)
  with in_flight_bounded [OF h] h show ?thesis by simp
qed

lemma scan_port_accepting: "scan_port accepting ip port timeout = Inr (port, ''open'', Some 12)"
  by (simp add: scan_port_def try_connect_def accepting_def py_round_def)

lemma scan_port_refusing: "scan_port refusing ip port timeout = Inr (port, ''closed'', None)"
  by (simp add: scan_port_def try_connect_def refusing_def)

lemma scan_port_silent: "scan_port silent ip port timeout = Inr (port, ''timeout'', None)"
  by (simp add: scan_port_def try_connect_def silent_def)

theorem progress_once_per_port_witness:
  "scan_ports first_open ''127.0.0.1'' [80, 443] 1 1 (Some counting)
       [Acquire 1, Release 1, Acquire 0, Release 0]
     = Some (Inr [(80, ''open'', Some 12), (443, ''closed'', None)])
   \<and> length (progress_calls first_open ''127.0.0.1'' [80, 443] 1 1 (Some counting)
       [Acquire 1, Release 1, Acquire 0, Release 0]) = length [80, 443 :: int]
   \<and> distinct (progress_calls first_open ''127.0.0.1'' [80, 443] 1 1 (Some counting)
       [Acquire 1, Release 1, Acquire 0, Release 0])
   \<and> set (progress_calls first_open ''127.0.0.1'' [80, 443] 1 1 (Some counting)
       [Acquire 1, Release 1, Acquire 0, Release 0]) = {..<length [80, 443 :: int]}"
proof -
  have h: "scan_ports first_open ''127.0.0.1'' [80, 443] 1 1 (Some counting)
       [Acquire 1, Release 1, Acquire 0, Release 0]
     = Some (Inr [(80, ''open'', Some 12), (443, ''closed'', None)])"
    by (simp add: scan_ports_def Semaphore_def init_state_def scan_with_semaphore_def
        first_open_def counting_def scan_port_accepting scan_port_refusing)
  from progress_once_per_port [OF h] h show ?thesis by simp
qed

theorem results_aligned_witness:
  "scan_ports first_open ''127.0.0.1'' [80, 443] 1 1 (Some raising_first)
       [Acquire 0, Release 0, Acquire 1, Release 1]
     = Some (Inr [(0, ''error'', None), (443, ''closed'', None)])
   \<and> (1::nat) < length [80, 443 :: int]
   \<and> length [(0, ''error'', None), (443, ''closed'', None :: int option)] = length [80, 443 :: int]
   \<and> scan_port (first_open 1) ''127.0.0.1'' ([80, 443] ! 1) 1
       = Inr ([(0, ''error'', None), (443, ''closed'', None)] ! 1)
   \<and> fst ([(0, ''error'', None), (443 :: int, ''closed'', None :: int option)] ! 1) = [80, 443] ! 1"
proof -
  have h: "scan_ports first_open ''127.0.0.1'' [80, 443] 1 1 (Some raising_first)
       [Acquire 0, Release 0, Acquire 1, Release 1]
     = Some (Inr [(0, ''error'', None), (443, ''closed'', None)])"
    by (simp add: scan_ports_def Semaphore_def init_state_def scan_with_semaphore_def
        first_open_def raising_first_def scan_port_accepting scan_port_refusing)
  have i: "(1::nat) < length [80, 443 :: int]" by simp
  from results_aligned [OF h i] h show ?thesis by simp
qed

theorem fault_substituted_witness:
  "(0::int) < 1
   \<and> scan_ports first_open ''127.0.0.1'' [80, 443] 1 1 (Some raising_first)
       [Acquire 0, Release 0, Acquire 1, Release 1]
     = Some (Inr [(0, ''error'', None), (443, ''closed'', None)])
   \<and> fst (scan_with_semaphore first_open ''127.0.0.1'' 1 (Some raising_first) 0 ([80, 443] ! 0))
     = Exc OtherException
   \<and> (\<exists>rs. (Inr [(0, ''error'', None), (443, ''closed'', None)] :: py_exception + outcome list)
          = Inr rs
        \<and> length rs = length [80, 443 :: int] \<and> rs ! 0 = (0, ''error'', None))
   \<and> (\<exists>more rs. scan_ports first_open ''127.0.0.1'' [80, 443] 1 1 (Some raising_first)
         ([Acquire 0] @ more) = Some (Inr rs))"
proof -
  have c: "(0::int) < 1" by simp
  have l: "loop_after first_open ''127.0.0.1'' [80, 443] 1 1 (Some raising_first) [Acquire 0]
     = Some \<lparr>sem_value = 0, tasks = [InFlight, Waiting], progress_log = []\<rparr>"
    by (simp add: loop_after_def Semaphore_def init_state_def)
  have h: "scan_ports first_open ''127.0.0.1'' [80, 443] 1 1 (Some raising_first)
       [Acquire 0, Release 0, Acquire 1, Release 1]
     = Some (Inr [(0, ''error'', None), (443, ''closed'', None)])"
    by (simp add: scan_ports_def Semaphore_def init_state_def scan_with_semaphore_def
        first_open_def raising_first_def scan_port_accepting scan_port_refusing)
  have f: "fst (scan_with_semaphore first_open ''127.0.0.1'' 1 (Some raising_first) 0 ([80, 443] ! 0))
     = Exc OtherException"
    by (simp add: scan_with_semaphore_def first_open_def raising_first_def scan_port_accepting)
  note t = fault_substituted [OF c, of first_open "''127.0.0.1''" "[80, 443]" 1 "Some raising_first"]
  from t l have more: "\<exists>more rs. scan_ports first_open ''127.0.0.1'' [80, 443] 1 1
         (Some raising_first) ([Acquire 0] @ more) = Some (Inr rs)"
    by blast
  from t h obtain rs where rs:
    "(Inr [(0, ''error'', None), (443, ''closed'', None)] :: py_exception + outcome list) = Inr rs"
    "length rs = length [80, 443 :: int]"
    "\<forall>i<length [80, 443 :: int]. \<forall>e.
       fst (scan_with_semaphore first_open ''127.0.0.1'' 1 (Some raising_first) i ([80, 443] ! i))
         = Exc e \<longrightarrow> rs ! i = (0, ''error'', None)"
    by blast
  from rs(3) f have "rs ! 0 = (0, ''error'', None)" by simp
  with rs(1,2) have "\<exists>rs. (Inr [(0, ''error'', None), (443, ''closed'', None)] :: py_exception + outcome list)
          = Inr rs
        \<and> length rs = length [80, 443 :: int] \<and> rs ! 0 = (0, ''error'', None)"
    by blast
  with c h f more show ?thesis by blast
qed

section \<open>Properties of the port parser, the report and the summary\<close>

lemmas parse_defs =
  parse_ports_def strip_def is_space_def parse_range_def parse_port_def py_int_def
  parse_nat_def is_digit_def digit_val_def

lemma parse_ports_0: "parse_ports ''0'' = Inl (BadPort ''0'')"
  by (simp add: parse_defs)

lemma parse_ports_65536: "parse_ports ''65536'' = Inl (BadPort ''65536'')"
  by (simp add: parse_defs)

lemma parse_ports_80_20: "parse_ports ''80-20'' = Inl (BadRange ''80-20'')"
  by (simp add: parse_defs)

lemma parts_20_80:
  "parse_parts (split_on CHR '','' (strip ''20-80,443,8080'')) {}
     = Inr (set ([20..80] @ [443, 8080]))"
  by (simp add: parse_defs insert_commute del: upto_rec_numeral)

lemma sorted_20_80: "sorted ([20..80] @ [443, 8080 :: int]) \<and> distinct ([20..80] @ [443, 8080 :: int])"
  by (simp add: sorted_append del: upto_rec_numeral)

lemma parse_ports_20_80: "parse_ports ''20-80,443,8080'' = Inr ([20..80] @ [443, 8080])"
proof -
  have "parse_ports ''20-80,443,8080'' = Inr (sorted_list_of_set (set ([20..80] @ [443, 8080])))"
    unfolding parse_ports_def parts_20_80
    by (simp add: strip_def is_space_def del: upto_rec_numeral set_append)
  with sorted_20_80 show ?thesis
    by (simp only: sorted_list_of_set.idem_if_sorted_distinct)
qed

lemma parse_parts_finite:
  "parse_parts parts acc = Inr r \<Longrightarrow> finite acc \<Longrightarrow> finite r"
proof (induction parts arbitrary: acc)
  case Nil
  then show ?case by simp
next
  case (Cons p parts)
  then show ?case
    by (auto simp: Let_def split: if_splits sum.splits)
qed

lemma parse_ports_distinct:
  assumes "parse_ports s = Inr ports"
  shows "distinct ports \<and> sorted ports"
proof -
  from assms obtain r where r: "parse_parts (split_on CHR '','' (strip s)) {} = Inr r"
    and p: "ports = sorted_list_of_set r"
    by (auto simp: parse_ports_def split: if_splits sum.splits)
  from parse_parts_finite [OF r] have "finite r" by simp
  with p show ?thesis by simp
qed

lemma parse_ports_80_443_80: "parse_ports ''80,443,80'' = Inr [80, 443]"
  by (simp add: parse_defs insert_commute)

text \<open>
  C7. \<open>parse_ports("20-80,443,8080")\<close> returns the 63 ports 20, ..., 80, 443, 8080 in
  ascending order; \<open>parse_ports\<close> raises \<open>ValueError\<close> on \<open>"0"\<close>, on \<open>"65536"\<close> and
  on the reversed range \<open>"80-20"\<close>; and whatever list it returns holds no port twice,
  so that ports named by several tokens appear once.
\<close>

theorem parse_ports_examples:
  "parse_ports ''20-80,443,8080'' = Inr ([20..80] @ [443, 8080])
   \<and> length ([20..80] @ [443, 8080 :: int]) = 63
   \<and> set ([20..80] @ [443, 8080 :: int]) = {20..80} \<union> {443, 8080}
   \<and> parse_ports ''0'' = Inl (BadPort ''0'')
   \<and> parse_ports ''65536'' = Inl (BadPort ''65536'')
   \<and> parse_ports ''80-20'' = Inl (BadRange ''80-20'')
   \<and> (\<forall>s ports. parse_ports s = Inr ports \<longrightarrow> distinct ports \<and> sorted ports)"
proof -
  have "length ([20..80] @ [443, 8080 :: int]) = 63" by simp
  moreover have "set ([20..80] @ [443, 8080 :: int]) = {20..80} \<union> {443, 8080}"
    by (auto simp del: upto_rec_numeral)
  moreover have "\<forall>s ports. parse_ports s = Inr ports \<longrightarrow> distinct ports \<and> sorted ports"
    using parse_ports_distinct by blast
  ultimately show ?thesis
    using parse_ports_20_80 parse_ports_0 parse_ports_65536 parse_ports_80_20 by blast
qed

theorem parse_ports_examples_witness:
  "parse_ports ''80,443,80'' = Inr [80, 443] \<and> distinct [80, 443 :: int] \<and> sorted [80, 443 :: int]"
proof -
  from parse_ports_examples
  have "parse_ports ''80,443,80'' = Inr [80, 443] \<longrightarrow> distinct [80, 443 :: int] \<and> sorted [80, 443 :: int]"
    by blast
  with parse_ports_80_443_80 show ?thesis by blast
qed

lemma count_result_apply:
  "count_result m r k =
     (case m k of
        None \<Rightarrow> None
      | Some n \<Rightarrow> if status_of r = PyStr k then Some (n + 1) else Some n)"
  by (auto simp: count_result_def split: py_val.splits option.splits)

lemma foldl_count_result:
  "foldl count_result m rs k =
     (case m k of None \<Rightarrow> None | Some n \<Rightarrow> Some (n + int (status_count k rs)))"
proof (induction rs arbitrary: m)
  case Nil
  then show ?case by (simp add: status_count_def split: option.splits)
next
  case (Cons r rs)
  have "foldl count_result m (r # rs) k =
      (case count_result m r k of
         None \<Rightarrow> None
       | Some n \<Rightarrow> Some (n + int (status_count k rs)))"
    by (simp add: Cons.IH)
  also have "\<dots> = (case m k of None \<Rightarrow> None | Some n \<Rightarrow> Some (n + int (status_count k (r # rs))))"
    by (simp add: count_result_apply [of m r k] status_count_def split: option.splits)
  finally show ?case .
qed

lemma create_summary_key:
  "create_summary rs k =
     (if k = ''total'' then Some (int (length rs) + int (status_count ''total'' rs))
      else if k \<in> {''open'', ''closed'', ''timeout'', ''error''}
           then Some (int (status_count k rs))
      else None)"
  by (simp add: create_summary_def foldl_count_result)

lemma recognised_counts:
  "list_all recognised rs \<Longrightarrow>
   status_count ''open'' rs + status_count ''closed'' rs + status_count ''timeout'' rs
     + status_count ''error'' rs = length rs
   \<and> status_count ''total'' rs = 0"
  by (induction rs) (auto simp: recognised_def status_count_def)

text \<open>
  C4 (as amended). For every list of results, \<open>create_summary\<close> counts under each of
  \<open>open\<close>, \<open>closed\<close>, \<open>timeout\<close> and \<open>error\<close> the results with that status, where
  a result without a status counts as \<open>error\<close>; a result with any other status is
  counted under none of the four. When every status is one of the four keywords or
  absent, as for every result built from a tuple of \<open>scan_ports\<close> (the sentinel has the
  status \<open>error\<close>), \<open>total\<close> is the number of results and equals the sum of the four
  counts.
\<close>

theorem create_summary_counts:
  "create_summary results ''open'' = Some (int (status_count ''open'' results))
   \<and> create_summary results ''closed'' = Some (int (status_count ''closed'' results))
   \<and> create_summary results ''timeout'' = Some (int (status_count ''timeout'' results))
   \<and> create_summary results ''error'' = Some (int (status_count ''error'' results))
   \<and> (list_all recognised results \<longrightarrow>
        create_summary results ''total'' = Some (int (length results))
        \<and> int (length results)
            = int (status_count ''open'' results) + int (status_count ''closed'' results)
              + int (status_count ''timeout'' results) + int (status_count ''error'' results))"
proof -
  have "list_all recognised results \<longrightarrow>
        create_summary results ''total'' = Some (int (length results))
        \<and> int (length results)
            = int (status_count ''open'' results) + int (status_count ''closed'' results)
              + int (status_count ''timeout'' results) + int (status_count ''error'' results)"
  proof
    assume "list_all recognised results"
    from recognised_counts [OF this]
    have "int (status_count ''open'' results + status_count ''closed'' results
            + status_count ''timeout'' results + status_count ''error'' results)
          = int (length results)"
      and "status_count ''total'' results = 0"
      by simp_all
    then show "create_summary results ''total'' = Some (int (length results))
        \<and> int (length results)
            = int (status_count ''open'' results) + int (status_count ''closed'' results)
              + int (status_count ''timeout'' results) + int (status_count ''error'' results)"
      by (simp add: create_summary_key)
  qed
  then show ?thesis by (simp add: create_summary_key)
qed

text \<open>
  C4 as stated fails: a result with the status \<open>filtered\<close> is counted under none of
  the four keywords, not under \<open>error\<close>, and \<open>total\<close> is 1 while the four counts sum
  to 0.
\<close>

theorem create_summary_counterexample:
  "\<not> recognised filtered_result
   \<and> create_summary [filtered_result] ''total'' = Some 1
   \<and> create_summary [filtered_result] ''open'' = Some 0
   \<and> create_summary [filtered_result] ''closed'' = Some 0
   \<and> create_summary [filtered_result] ''timeout'' = Some 0
   \<and> create_summary [filtered_result] ''error'' = Some 0"
  by (simp add: create_summary_key status_count_def recognised_def status_of_def
      filtered_result_def)

lemma status_of_to_result: "status_of (to_result (p, st, el)) = PyStr st"
  by (simp add: status_of_def to_result_def)

lemma port_key_to_result: "port_key (to_result t) = fst t"
  by (cases t) (simp add: port_key_def to_result_def)

theorem create_summary_counts_witness:
  "list_all recognised (map to_result [(80, ''open'', Some 12), (0, ''error'', None)])
   \<and> create_summary (map to_result [(80, ''open'', Some 12), (0, ''error'', None)]) ''total''
       = Some 2
   \<and> create_summary (map to_result [(80, ''open'', Some 12), (0, ''error'', None)]) ''open''
       = Some 1
   \<and> create_summary (map to_result [(80, ''open'', Some 12), (0, ''error'', None)]) ''error''
       = Some 1"
proof -
  have r: "list_all recognised (map to_result [(80, ''open'', Some 12), (0, ''error'', None)])"
    by (simp add: recognised_def status_of_to_result)
  have c: "status_count ''open'' (map to_result [(80, ''open'', Some 12), (0, ''error'', None)]) = 1"
    "status_count ''error'' (map to_result [(80, ''open'', Some 12), (0, ''error'', None)]) = 1"
    by (simp_all add: status_count_def status_of_to_result)
  from create_summary_counts [of "map to_result [(80, ''open'', Some 12), (0, ''error'', None)]"] r c
  show ?thesis by simp
qed

lemma result_line_to_result:
  "result_line (to_result (p, st, el)) =
     Inr (''Port '' @ rjust 5 (str_int p) @ '' ('' @ ljust 15 (get_port_description p) @ ''): ''
          @ ljust 8 st
          @ '' ('' @ (case el of None \<Rightarrow> ''None'' | Some ms \<Rightarrow> str_int ms) @ ''ms)''
          @ [CHR 0x0A])"
  by (simp add: result_line_def to_result_def split: option.splits)

lemma str_int_443: "str_int 443 = ''443''"
  by (simp add: str_int_def digit_char_def)

lemma description_443: "get_port_description 443 = ''HTTPS''"
  by (simp add: get_port_description_def well_known_ports_def)

lemma rjust_443: "rjust 5 ''443'' = ''  443''"
  by (simp add: rjust_def eval_nat_numeral)

lemma ljust_HTTPS: "ljust 15 ''HTTPS'' = ''HTTPS          ''"
  by (simp add: ljust_def eval_nat_numeral)

lemma ljust_closed: "ljust 8 ''closed'' = ''closed  ''"
  by (simp add: ljust_def eval_nat_numeral)

text \<open>
  C9. The line that \<open>save_results_txt\<close> writes for the result of a closed port, as
  \<open>process_results\<close> builds it (with \<open>None\<close> under \<open>time_ms\<close>): the port number
  right-aligned in five characters, the description, the status, and then the elapsed
  time field, which is not omitted but reads \<open>(Nonems)\<close>.
\<close>

theorem closed_port_line:
  "result_line (to_result (443, ''closed'', None))
     = Inr (''Port   443 (HTTPS          ): closed   (Nonems)'' @ [CHR 0x0A])"
  by (simp add: result_line_to_result str_int_443 description_443 rjust_443 ljust_HTTPS
      ljust_closed)

lemma status_count_sort: "status_count k (sort_key f rs) = status_count k rs"
  by (simp add: status_count_def filter_sort)

lemma create_summary_sort: "create_summary (sort_key f rs) = create_summary rs"
  by (rule ext) (simp add: create_summary_key status_count_sort)

text \<open>
  C8. Aggregating the same list of outcomes a second time, in the state the first
  aggregation left, changes nothing; the stored results and the summary do not depend
  on the state of the application before; sorting the stored results again and
  summarising them again gives the same results and the same summary; and the summary
  is that of the results before sorting.
\<close>

theorem aggregate_idempotent:
  "aggregate results (fst (aggregate results a)) = aggregate results a
   \<and> scan_results (fst (aggregate results a)) = scan_results (fst (aggregate results b))
   \<and> snd (aggregate results a) = snd (aggregate results b)
   \<and> sort_key port_key (scan_results (fst (aggregate results a)))
       = scan_results (fst (aggregate results a))
   \<and> create_summary (sort_key port_key (scan_results (fst (aggregate results a))))
       = snd (aggregate results a)
   \<and> snd (aggregate results a) = create_summary (map to_result results)"
  by (simp add: aggregate_def process_results_def Let_def sort_key_id_if_sorted
      create_summary_sort)

section \<open>Properties of the aggregated scan\<close>

lemma task_result_cases:
  "(\<exists>e. fst (scan_with_semaphore net ip timeout cb i port) = Exc e)
   \<or> (\<exists>st el. fst (scan_with_semaphore net ip timeout cb i port) = Tuple (port, st, el))"
  using scan_port_cases [of "net i" ip port timeout]
  by (auto simp: scan_with_semaphore_def split: option.splits)

lemma expected_port:
  assumes "i < length ports"
  shows "fst (expected_results net ip ports timeout cb ! i)
       = (if faulted net ip timeout cb i (ports ! i) then 0 else ports ! i)"
  using task_result_cases [of net ip timeout cb i "ports ! i"] assms
  by (auto simp: expected_nth faulted_def)

lemma map_fst_expected:
  "map fst (expected_results net ip ports timeout cb)
     = map (\<lambda>i. if faulted net ip timeout cb i (ports ! i) then 0 else ports ! i)
         [0..<length ports]"
  by (rule nth_equalityI) (simp_all add: expected_length expected_port)

lemma stored_ports:
  "mset (map port_key (scan_results (process_results rs a))) = mset (map fst rs)"
proof -
  have "map port_key (map to_result rs) = map fst rs"
    by (simp add: port_key_to_result)
  then have "mset (map port_key (map to_result rs)) = mset (map fst rs)"
    by (rule arg_cong)
  moreover have "mset (map port_key (sort_key port_key (map to_result rs)))
      = mset (map port_key (map to_result rs))"
    by (simp only: mset_map mset_sort)
  moreover have "scan_results (process_results rs a) = sort_key port_key (map to_result rs)"
    by (simp add: process_results_def)
  ultimately show ?thesis by (simp only:)
qed

lemma count_stored_ports:
  "count_list (map port_key (scan_results (process_results rs a))) p = count_list (map fst rs) p"
  using stored_ports [of rs a] by (metis count_mset)

lemma count_list_map_upt:
  "count_list (map g [0..<n]) v = length (filter (\<lambda>i. g i = v) [0..<n])"
  by (induction n) simp_all

lemma count_requested:
  fixes ports :: "int list"
  assumes "distinct ports" and "list_all (\<lambda>p. 1 \<le> p \<and> p \<le> 65535) ports"
    and "i < length ports" and "\<not> f i"
  shows "count_list (map (\<lambda>j. if f j then 0 else ports ! j) [0..<length ports]) (ports ! i) = 1"
proof -
  let ?P = "\<lambda>j. (if f j then 0 else ports ! j) = ports ! i"
  from assms(2,3) have pos: "1 \<le> ports ! i" by (simp add: list_all_length)
  have "set (filter ?P [0..<length ports]) = {i}"
  proof (rule set_eqI)
    fix j
    show "j \<in> set (filter ?P [0..<length ports]) \<longleftrightarrow> j \<in> {i}"
      using assms(1,3,4) pos by (auto simp: nth_eq_iff_index_eq)
  qed
  moreover have "distinct (filter ?P [0..<length ports])" by simp
  ultimately have "length (filter ?P [0..<length ports]) = card {i}"
    by (metis distinct_card)
  then show ?thesis by (simp add: count_list_map_upt)
qed

lemma count_sentinel:
  fixes ports :: "int list"
  assumes "list_all (\<lambda>p. 1 \<le> p \<and> p \<le> 65535) ports"
  shows "count_list (map (\<lambda>j. if f j then 0 else ports ! j) [0..<length ports]) 0
       = length (filter f [0..<length ports])"
proof -
  have "filter (\<lambda>j. (if f j then 0 else ports ! j) = 0) [0..<length ports]
      = filter f [0..<length ports]"
  proof (rule filter_cong [OF refl])
    fix j assume "j \<in> set [0..<length ports]"
    with assms have "1 \<le> ports ! j" by (simp add: list_all_length)
    then show "((if f j then 0 else ports ! j) = 0) = f j" by auto
  qed
  then show ?thesis by (simp add: count_list_map_upt)
qed

text \<open>
  C2 (as amended). For every valid request (a non-empty list of distinct ports between
  1 and 65535, a positive concurrency limit and a positive timeout) the scan returns,
  and after aggregation the stored results hold one entry per requested port
  (as many entries as ports), sorted ascending by port number; every requested port
  whose task did not end in an exception appears exactly once, and the port 0 of the
  sentinel appears once for every task that did.
\<close>

theorem scan_result_ports:
  assumes "valid_request ports concurrency timeout"
  shows "(\<exists>sched rs. scan_ports net ip ports concurrency timeout cb sched = Some (Inr rs))
     \<and> (\<forall>sched rs. scan_ports net ip ports concurrency timeout cb sched = Some (Inr rs) \<longrightarrow>
          length (scan_results (process_results rs a)) = length ports
          \<and> sorted (map port_key (scan_results (process_results rs a)))
          \<and> (\<forall>i<length ports. \<not> faulted net ip timeout cb i (ports ! i) \<longrightarrow>
                count_list (map port_key (scan_results (process_results rs a))) (ports ! i) = 1)
          \<and> count_list (map port_key (scan_results (process_results rs a))) 0
              = length (filter (\<lambda>i. faulted net ip timeout cb i (ports ! i)) [0..<length ports]))"
proof (intro conjI allI impI)
  from assms have c: "0 < concurrency" by (simp add: valid_request_def)
  then have "loop_after net ip ports concurrency timeout cb []
      = Some (init_state (nat concurrency) ports)"
    by (simp add: loop_after_def Semaphore_def)
  from scan_ports_completes [OF c this]
  show "\<exists>sched rs. scan_ports net ip ports concurrency timeout cb sched = Some (Inr rs)"
    by auto
next
  fix sched rs
  assume "scan_ports net ip ports concurrency timeout cb sched = Some (Inr rs)"
  then have rs: "rs = expected_results net ip ports timeout cb"
    by (rule scan_ports_expected)
  from assms have d: "distinct ports" and r: "list_all (\<lambda>p. 1 \<le> p \<and> p \<le> 65535) ports"
    by (simp_all add: valid_request_def)
  show "length (scan_results (process_results rs a)) = length ports"
    by (simp add: process_results_def rs expected_length)
  show "sorted (map port_key (scan_results (process_results rs a)))"
    by (simp add: process_results_def)
  show "count_list (map port_key (scan_results (process_results rs a))) 0
      = length (filter (\<lambda>i. faulted net ip timeout cb i (ports ! i)) [0..<length ports])"
    using count_sentinel [OF r] by (simp add: count_stored_ports rs map_fst_expected)
  fix i
  assume "i < length ports" and "\<not> faulted net ip timeout cb i (ports ! i)"
  with count_requested [OF d r, of i "\<lambda>i. faulted net ip timeout cb i (ports ! i)"]
  show "count_list (map port_key (scan_results (process_results rs a))) (ports ! i) = 1"
    by (simp add: count_stored_ports rs map_fst_expected)
qed

lemma raising_first_run:
  "scan_ports first_open ''127.0.0.1'' [80, 443] 1 1 (Some raising_first)
       [Acquire 0, Release 0, Acquire 1, Release 1]
     = Some (Inr [(0, ''error'', None), (443, ''closed'', None)])"
  by (simp add: scan_ports_def Semaphore_def init_state_def scan_with_semaphore_def
      first_open_def raising_first_def scan_port_accepting scan_port_refusing)

lemma raising_first_stored:
  "map port_key
     (scan_results (process_results [(0, ''error'', None), (443, ''closed'', None)] fresh_app))
     = [0, 443]"
  by (simp add: process_results_def port_key_to_result)

text \<open>
  C2 as stated fails: in a valid request for the ports 80 and 443 whose callback raises
  when the task of port 80 invokes it, the aggregated results hold the ports 0 and 443,
  and the requested port 80 is absent.
\<close>

theorem scan_result_ports_counterexample:
  "valid_request [80, 443] 1 1
   \<and> scan_ports first_open ''127.0.0.1'' [80, 443] 1 1 (Some raising_first)
       [Acquire 0, Release 0, Acquire 1, Release 1]
     = Some (Inr [(0, ''error'', None), (443, ''closed'', None)])
   \<and> map port_key
       (scan_results (process_results [(0, ''error'', None), (443, ''closed'', None)] fresh_app))
     = [0, 443]
   \<and> count_list [0, 443 :: int] 80 = 0"
proof -
  have "valid_request [80, 443] 1 1" by (simp add: valid_request_def)
  moreover have "count_list [0, 443 :: int] 80 = 0" by simp
  ultimately show ?thesis using raising_first_run raising_first_stored by blast
qed

theorem scan_result_ports_witness:
  "valid_request [80, 443] 1 1
   \<and> scan_ports first_open ''127.0.0.1'' [80, 443] 1 1 (Some raising_first)
       [Acquire 0, Release 0, Acquire 1, Release 1]
     = Some (Inr [(0, ''error'', None), (443, ''closed'', None)])
   \<and> \<not> faulted first_open ''127.0.0.1'' 1 (Some raising_first) 1 ([80, 443] ! 1)
   \<and> length (scan_results
        (process_results [(0, ''error'', None), (443, ''closed'', None)] fresh_app))
     = length [80, 443 :: int]
   \<and> sorted (map port_key (scan_results
        (process_results [(0, ''error'', None), (443, ''closed'', None)] fresh_app)))
   \<and> count_list (map port_key (scan_results
        (process_results [(0, ''error'', None), (443, ''closed'', None)] fresh_app)))
        ([80, 443] ! 1) = 1
   \<and> count_list (map port_key (scan_results
        (process_results [(0, ''error'', None), (443, ''closed'', None)] fresh_app))) 0
     = length (filter (\<lambda>i. faulted first_open ''127.0.0.1'' 1 (Some raising_first) i ([80, 443] ! i))
         [0..<length [80, 443 :: int]])"
proof -
  have v: "valid_request [80, 443] 1 1" by (simp add: valid_request_def)
  have n: "\<not> faulted first_open ''127.0.0.1'' 1 (Some raising_first) 1 ([80, 443] ! 1)"
    by (simp add: faulted_def scan_with_semaphore_def first_open_def raising_first_def
        scan_port_refusing)
  have i: "1 < length [80, 443 :: int]" by simp
  from scan_result_ports [OF v, of first_open "''127.0.0.1''" "Some raising_first" fresh_app]
    raising_first_run n i
  show ?thesis using v by blast
qed

end
